theory Spec2Isabelle
  imports Main "HOL-Library.Sublist"
begin

section \<open>The component handler of material.js\<close>

text \<open>
  The development embeds \<^verbatim>\<open>componentHandler\<close> of \<^verbatim>\<open>src/dist/material.js\<close>
  (lines 31 to 263): the registry of component classes, the list of created components,
  and the functions that upgrade and downgrade DOM elements.

  Conventions of the embedding.
  \<^item> JavaScript identifiers that end in an underscore lose it, since such names are not
    accepted here: \<^verbatim>\<open>registeredComponents_\<close> is \<open>registeredComponents\<close>,
    \<^verbatim>\<open>findRegisteredClass_\<close> is \<open>findRegisteredClass\<close>, and the instance property
    \<^verbatim>\<open>element_\<close> is \<open>element_field\<close>.
  \<^item> A DOM element and a callback function are known by their identity only; both are
    natural numbers.
  \<^item> The two module variables, the \<^verbatim>\<open>data-upgraded\<close> attribute of every element, the
    properties the handler assigns to elements and a log of every call the handler makes
    to code outside it form the record \<open>world\<close>; every function takes a world and returns
    an \<open>outcome\<close>.
  \<^item> A \<^verbatim>\<open>throw\<close> is the outcome \<open>Thrown\<close>; it carries the world as it is when the
    exception leaves the function, since the handler mutates state before it throws.
  \<^item> An argument that JavaScript may leave \<^verbatim>\<open>undefined\<close> is an \<open>option\<close>.
  \<^item> Component constructors, upgrade callbacks, downgrade methods and event listeners
    are code outside the handler. The embedding logs that they are called, and takes
    them to return normally, to store their element in \<^verbatim>\<open>element_\<close> (as both
    constructors of the file do) and not to call back into the handler.
  \<^item> \<^verbatim>\<open>document.querySelectorAll\<close> is the browser's. It is a field of the world, a
    function from the selector string to the elements that match, in document order;
    it is taken to accept every selector it is given and to answer the same throughout.
  \<^item> Objects that the source compares by identity are values here. The one comparison
    of components, \<^verbatim>\<open>createdComponents_.indexOf(component)\<close>, is made for the first
    component of the list with a given element; the first component of the list equal
    to it is then that component itself.
\<close>

subsection \<open>Strings and arrays of JavaScript\<close>

text \<open>\<^verbatim>\<open>String.prototype.indexOf\<close>: the first position at which the needle occurs in
  the string, or \<open>-1\<close>. The empty needle occurs at position \<open>0\<close> of every string.\<close>

fun str_indexOf :: "string \<Rightarrow> string \<Rightarrow> int" where
  "str_indexOf [] needle = (if needle = [] then 0 else -1)"
| "str_indexOf (c # cs) needle =
     (if prefix needle (c # cs) then 0
      else (let r = str_indexOf cs needle in if r = -1 then -1 else r + 1))"

text \<open>\<^verbatim>\<open>s.split(',')\<close>: the pieces between the commas; never the empty array.\<close>

fun js_split :: "string \<Rightarrow> string list" where
  "js_split [] = [[]]"
| "js_split (c # cs) =
     (if c = CHR '','' then [] # js_split cs
      else (case js_split cs of
              [] \<Rightarrow> [[c]]
            | t # ts \<Rightarrow> (c # t) # ts))"

text \<open>\<^verbatim>\<open>a.join(',')\<close>.\<close>

fun js_join :: "string list \<Rightarrow> string" where
  "js_join [] = []"
| "js_join [t] = t"
| "js_join (t # u # ts) = t @ '','' @ js_join (u # ts)"

text \<open>\<^verbatim>\<open>Array.prototype.indexOf\<close>: the first index holding the value, or \<open>-1\<close>.\<close>

fun arr_indexOf :: "'a list \<Rightarrow> 'a \<Rightarrow> int" where
  "arr_indexOf [] v = -1"
| "arr_indexOf (x # xs) v =
     (if x = v then 0
      else (let r = arr_indexOf xs v in if r = -1 then -1 else r + 1))"

text \<open>\<^verbatim>\<open>a.splice(start, 1)\<close>: a negative start counts from the end of the array (and
  not below \<open>0\<close>), a start beyond the end is the end; one element is removed there if
  there is one.\<close>

definition arr_splice1 :: "int \<Rightarrow> 'a list \<Rightarrow> 'a list" where
  "arr_splice1 start xs =
     (let n = int (length xs);
          s = (if start < 0 then max (n + start) 0 else min start n)
      in take (nat s) xs @ drop (Suc (nat s)) xs)"

text \<open>The string JavaScript makes of a value that may be \<^verbatim>\<open>undefined\<close>, as in
  \<^verbatim>\<open>',' + jsClass\<close>.\<close>

definition js_string :: "string option \<Rightarrow> string" where
  "js_string v = (case v of None \<Rightarrow> ''undefined'' | Some s \<Rightarrow> s)"

subsection \<open>Data\<close>

type_synonym element = nat
type_synonym callback = nat

text \<open>A constructor function: its identity and the names of the own properties of its
  prototype, all that the handler reads of it.\<close>

record class_constructor =
  ctor_name :: string
  prototype :: "string list"

definition hasOwnProperty :: "string list \<Rightarrow> string \<Rightarrow> bool" where
  "hasOwnProperty props name = (name \<in> set props)"

definition downgradeMethod :: string where
  "downgradeMethod = ''mdlDowngrade_''"

definition componentConfigProperty :: string where
  "componentConfigProperty = ''mdlComponentConfigInternal_''"

text \<open>The argument of \<^verbatim>\<open>register\<close>:
  \<^verbatim>\<open>{constructor: Constructor, classAsString: string, cssClass: string}\<close> and the
  optional \<^verbatim>\<open>widget\<close>.\<close>

record config =
  cfg_constructor :: class_constructor
  cfg_classAsString :: string
  cfg_cssClass :: string
  cfg_widget :: "bool option"

text \<open>The object \<^verbatim>\<open>newConfig\<close> that \<^verbatim>\<open>registerInternal\<close> stores in the registry.\<close>

record registration =
  classConstructor :: class_constructor
  className :: string
  cssClass :: string
  widget :: bool
  callbacks :: "callback list"

text \<open>\<^verbatim>\<open>registerInternal\<close> is the only place that builds a registration, and the object
  it builds has no key \<^verbatim>\<open>classAsString\<close>: reading that property of a registration gives
  \<^verbatim>\<open>undefined\<close>.\<close>

definition registration_classAsString :: "registration \<Rightarrow> string option" where
  "registration_classAsString r = None"

text \<open>A component instance: the element its constructor stored and the registration
  that \<^verbatim>\<open>upgradeElementInternal\<close> stores under \<^verbatim>\<open>mdlComponentConfigInternal_\<close>. The
  source stores a reference to the registry's object; the embedding stores its value at
  the time of the upgrade. Of that object the handler later reads the constructor only,
  which never changes.\<close>

record component =
  element_field :: element
  mdlComponentConfigInternal :: registration

datatype event =
    Constructed class_constructor element
  | CallbackCalled callback element
  | DowngradeCalled component
  | Dispatched string element

record world =
  registeredComponents :: "registration list"
  createdComponents :: "component list"
  data_upgraded :: "element \<Rightarrow> string option"
  element_property :: "element \<Rightarrow> string \<Rightarrow> component option"
  querySelectorAll :: "string \<Rightarrow> element list"
  trace :: "event list"

datatype error =
    CssClassAlreadyRegistered
  | ClassNameAlreadyRegistered
  | ConfigPropertyDefined
  | UnableToFindRegisteredComponent
  | InvalidArgument
  | TypeError

datatype outcome = Done world | Thrown error world

text \<open>The handler before any call, over a document that answers \<open>q\<close> to
  \<^verbatim>\<open>document.querySelectorAll\<close>.\<close>

definition initial_world :: "(string \<Rightarrow> element list) \<Rightarrow> world" where
  "initial_world q =
     \<lparr>registeredComponents = [], createdComponents = [],
      data_upgraded = (\<lambda>_. None), element_property = (\<lambda>_ _. None),
      querySelectorAll = q, trace = []\<rparr>"

subsection \<open>The registry\<close>

text \<open>The loop of \<^verbatim>\<open>findRegisteredClass_\<close>: the first index whose registration has the
  class name.\<close>

fun findRegisteredIndex :: "registration list \<Rightarrow> string option \<Rightarrow> nat option" where
  "findRegisteredIndex [] name = None"
| "findRegisteredIndex (r # rs) name =
     (if Some (className r) = name then Some 0
      else map_option Suc (findRegisteredIndex rs name))"

text \<open>\<^verbatim>\<open>findRegisteredClass_(name, optReplace)\<close>: the registration found (\<open>None\<close> for
  \<^verbatim>\<open>false\<close>), and the world, in which \<open>optReplace\<close> has taken the place of the match.\<close>

definition findRegisteredClass ::
    "world \<Rightarrow> string option \<Rightarrow> registration option \<Rightarrow> registration option \<times> world" where
  "findRegisteredClass st name optReplace =
     (case findRegisteredIndex (registeredComponents st) name of
        None \<Rightarrow> (None, st)
      | Some i \<Rightarrow>
          (case optReplace of
             None \<Rightarrow> (Some (registeredComponents st ! i), st)
           | Some r \<Rightarrow>
               (Some r, st\<lparr>registeredComponents := (registeredComponents st)[i := r]\<rparr>)))"

definition newConfig :: "config \<Rightarrow> registration" where
  "newConfig cfg =
     \<lparr>classConstructor = cfg_constructor cfg,
      className = cfg_classAsString cfg,
      cssClass = cfg_cssClass cfg,
      widget = (case cfg_widget cfg of None \<Rightarrow> True | Some w \<Rightarrow> w),
      callbacks = []\<rparr>"

text \<open>The \<^verbatim>\<open>forEach\<close> of \<^verbatim>\<open>registerInternal\<close>: the exception of the first item that
  has the CSS class or the class name of the new registration.\<close>

fun check_registered :: "registration list \<Rightarrow> registration \<Rightarrow> error option" where
  "check_registered [] new = None"
| "check_registered (item # items) new =
     (if cssClass item = cssClass new then Some CssClassAlreadyRegistered
      else if className item = className new then Some ClassNameAlreadyRegistered
      else check_registered items new)"

definition registerInternal :: "world \<Rightarrow> config \<Rightarrow> outcome" where
  "registerInternal st cfg =
     (case check_registered (registeredComponents st) (newConfig cfg) of
        Some e \<Rightarrow> Thrown e st
      | None \<Rightarrow>
          if hasOwnProperty (prototype (cfg_constructor cfg)) componentConfigProperty
          then Thrown ConfigPropertyDefined st
          else
            (case findRegisteredClass st (Some (cfg_classAsString cfg)) (Some (newConfig cfg)) of
               (Some found, st') \<Rightarrow> Done st'
             | (None, st') \<Rightarrow>
                 Done (st'\<lparr>registeredComponents := registeredComponents st' @ [newConfig cfg]\<rparr>)))"

text \<open>\<^verbatim>\<open>regClass.callbacks.push(callback)\<close> changes the object that the registry
  holds: the registration at the index found.\<close>

definition registerUpgradedCallbackInternal :: "world \<Rightarrow> string option \<Rightarrow> callback \<Rightarrow> outcome" where
  "registerUpgradedCallbackInternal st jsClass callback =
     (case findRegisteredIndex (registeredComponents st) jsClass of
        Some i \<Rightarrow>
          (let regClass = registeredComponents st ! i
           in Done (st\<lparr>registeredComponents :=
                (registeredComponents st)[i := regClass\<lparr>callbacks := callbacks regClass @ [callback]\<rparr>]\<rparr>))
      | None \<Rightarrow> Done st)"

subsection \<open>Upgrading\<close>

definition upgradeElementInternal :: "world \<Rightarrow> element \<Rightarrow> string option \<Rightarrow> outcome" where
  "upgradeElementInternal st element jsClass =
     (let dataUpgraded = data_upgraded st element in
      if (case dataUpgraded of
            None \<Rightarrow> True
          | Some s \<Rightarrow> str_indexOf s (js_string jsClass) = -1)
      then
        (let dataUpgraded' = (case dataUpgraded of None \<Rightarrow> [] | Some s \<Rightarrow> s);
             st1 = st\<lparr>data_upgraded :=
                     (data_upgraded st)(element \<mapsto> dataUpgraded' @ '','' @ js_string jsClass)\<rparr>
         in case fst (findRegisteredClass st1 jsClass None) of
              Some registeredClass \<Rightarrow>
                (let instance = \<lparr>element_field = element,
                                 mdlComponentConfigInternal = registeredClass\<rparr>;
                     st2 = st1\<lparr>trace := trace st1 @
                                  [Constructed (classConstructor registeredClass) element],
                               createdComponents := createdComponents st1 @ [instance]\<rparr>;
                     st3 = st2\<lparr>trace := trace st2 @
                                  map (\<lambda>callback. CallbackCalled callback element)
                                    (callbacks registeredClass)\<rparr>;
                     st4 = (if widget registeredClass
                            then st3\<lparr>element_property :=
                                   (element_property st3)
                                     (element := (element_property st3 element)
                                        (js_string jsClass \<mapsto> instance))\<rparr>
                            else st3)
                 in Done (st4\<lparr>trace := trace st4 @
                                 [Dispatched ''mdl-componentupgraded'' element]\<rparr>))
            | None \<Rightarrow> Thrown UnableToFindRegisteredComponent st1)
      else Done st)"

text \<open>The loop over the elements that \<^verbatim>\<open>querySelectorAll\<close> returned; an exception ends
  it.\<close>

fun upgradeElements :: "world \<Rightarrow> element list \<Rightarrow> string option \<Rightarrow> outcome" where
  "upgradeElements st [] jsClass = Done st"
| "upgradeElements st (e # es) jsClass =
     (case upgradeElementInternal st e jsClass of
        Done st' \<Rightarrow> upgradeElements st' es jsClass
      | Thrown err st' \<Rightarrow> Thrown err st')"

text \<open>The \<^verbatim>\<open>else\<close> branch of \<^verbatim>\<open>upgradeDomInternal\<close>: one class name, one CSS class.\<close>

definition upgradeDomClass :: "world \<Rightarrow> string option \<Rightarrow> string option \<Rightarrow> outcome" where
  "upgradeDomClass st jsClass cssClass0 =
     (let cssClass1 =
            (if cssClass0 = None
             then (case fst (findRegisteredClass st jsClass None) of
                     Some registeredClass \<Rightarrow> Some (cssClass registeredClass)
                   | None \<Rightarrow> cssClass0)
             else cssClass0);
          elements = querySelectorAll st (''.'' @ js_string cssClass1)
      in upgradeElements st elements jsClass)"

text \<open>The loop of the first branch of \<^verbatim>\<open>upgradeDomInternal\<close>. Each recursive call of
  the source has two strings as arguments and so runs the \<^verbatim>\<open>else\<close> branch. The loop
  goes over the registrations as they are when it starts: no call of the loop's body
  changes the registry (lemma \<open>upgradeDomClass_registry\<close>).\<close>

fun upgradeDomAll :: "world \<Rightarrow> registration list \<Rightarrow> outcome" where
  "upgradeDomAll st [] = Done st"
| "upgradeDomAll st (r # rs) =
     (case upgradeDomClass st (Some (className r)) (Some (cssClass r)) of
        Done st' \<Rightarrow> upgradeDomAll st' rs
      | Thrown err st' \<Rightarrow> Thrown err st')"

definition upgradeDomInternal :: "world \<Rightarrow> string option \<Rightarrow> string option \<Rightarrow> outcome" where
  "upgradeDomInternal st jsClass cssClass0 =
     (if jsClass = None \<and> cssClass0 = None
      then upgradeDomAll st (registeredComponents st)
      else upgradeDomClass st jsClass cssClass0)"

text \<open>The loop of \<^verbatim>\<open>upgradeAllRegisteredInternal\<close>, which passes the class name
  alone. It too goes over the registrations as they are when it starts (lemma
  \<open>upgradeDomInternal_frame\<close>).\<close>

fun upgradeAllLoop :: "world \<Rightarrow> registration list \<Rightarrow> outcome" where
  "upgradeAllLoop st [] = Done st"
| "upgradeAllLoop st (r # rs) =
     (case upgradeDomInternal st (Some (className r)) None of
        Done st' \<Rightarrow> upgradeAllLoop st' rs
      | Thrown err st' \<Rightarrow> Thrown err st')"

definition upgradeAllRegisteredInternal :: "world \<Rightarrow> outcome" where
  "upgradeAllRegisteredInternal st = upgradeAllLoop st (registeredComponents st)"

subsection \<open>Downgrading\<close>

definition findCreatedComponentByNodeInternal :: "world \<Rightarrow> element \<Rightarrow> component option" where
  "findCreatedComponentByNodeInternal st node =
     find (\<lambda>component. element_field component = node) (createdComponents st)"

text \<open>\<^verbatim>\<open>dataset.upgraded\<close> of an element without the attribute is \<^verbatim>\<open>undefined\<close>, and
  \<^verbatim>\<open>split\<close> of it a \<^verbatim>\<open>TypeError\<close>, raised after the downgrade method has run and the
  component has left the list.\<close>

definition deconstructComponentInternal :: "world \<Rightarrow> component option \<Rightarrow> outcome" where
  "deconstructComponentInternal st component0 =
     (case component0 of
        None \<Rightarrow> Done st
      | Some component \<Rightarrow>
          if hasOwnProperty
               (prototype (classConstructor (mdlComponentConfigInternal component)))
               downgradeMethod
          then
            (let st1 = st\<lparr>trace := trace st @ [DowngradeCalled component]\<rparr>;
                 componentIndex = arr_indexOf (createdComponents st1) component;
                 st2 = st1\<lparr>createdComponents :=
                          arr_splice1 componentIndex (createdComponents st1)\<rparr>
             in case data_upgraded st2 (element_field component) of
                  None \<Rightarrow> Thrown TypeError st2
                | Some upgraded \<Rightarrow>
                    (let upgrades = js_split upgraded;
                         componentPlace =
                           arr_indexOf (map Some upgrades)
                             (registration_classAsString (mdlComponentConfigInternal component));
                         upgrades' = arr_splice1 componentPlace upgrades;
                         st3 = st2\<lparr>data_upgraded :=
                                  (data_upgraded st2)
                                    (element_field component \<mapsto> js_join upgrades')\<rparr>
                     in Done (st3\<lparr>trace := trace st3 @
                                [Dispatched ''mdl-componentdowngraded'' (element_field component)]\<rparr>)))
          else Done st)"

definition downgradeNode :: "world \<Rightarrow> element \<Rightarrow> outcome" where
  "downgradeNode st node =
     deconstructComponentInternal st (findCreatedComponentByNodeInternal st node)"

fun downgradeNodeList :: "world \<Rightarrow> element list \<Rightarrow> outcome" where
  "downgradeNodeList st [] = Done st"
| "downgradeNodeList st (n # ns) =
     (case downgradeNode st n of
        Done st' \<Rightarrow> downgradeNodeList st' ns
      | Thrown err st' \<Rightarrow> Thrown err st')"

text \<open>The argument of \<^verbatim>\<open>downgradeNodesInternal\<close>: an \<^verbatim>\<open>Array\<close> or \<^verbatim>\<open>NodeList\<close> of
  nodes, one \<^verbatim>\<open>Node\<close>, or any other value.\<close>

datatype nodes = Nodes "element list" | Node element | NotNodes

fun downgradeNodesInternal :: "world \<Rightarrow> nodes \<Rightarrow> outcome" where
  "downgradeNodesInternal st (Nodes ns) = downgradeNodeList st ns"
| "downgradeNodesInternal st (Node n) = downgradeNode st n"
| "downgradeNodesInternal st NotNodes = Thrown InvalidArgument st"

subsection \<open>The public interface and sequences of calls\<close>

text \<open>The functions the module returns, under their public names.\<close>

datatype call =
    UpgradeDom "string option" "string option"
  | UpgradeElement element "string option"
  | UpgradeAllRegistered
  | RegisterUpgradedCallback "string option" callback
  | Register config
  | DowngradeElements nodes

fun perform :: "world \<Rightarrow> call \<Rightarrow> outcome" where
  "perform st (UpgradeDom jsClass cssClass0) = upgradeDomInternal st jsClass cssClass0"
| "perform st (UpgradeElement element jsClass) = upgradeElementInternal st element jsClass"
| "perform st UpgradeAllRegistered = upgradeAllRegisteredInternal st"
| "perform st (RegisterUpgradedCallback jsClass callback) =
     registerUpgradedCallbackInternal st jsClass callback"
| "perform st (Register cfg) = registerInternal st cfg"
| "perform st (DowngradeElements ns) = downgradeNodesInternal st ns"

fun world_of :: "outcome \<Rightarrow> world" where
  "world_of (Done st) = st"
| "world_of (Thrown err st) = st"

fun raised :: "outcome \<Rightarrow> error option" where
  "raised (Done st) = None"
| "raised (Thrown err st) = Some err"

text \<open>A sequence of calls made one after the other by code outside the handler. An
  exception ends the call that raised it; the next call finds the world as that call
  left it. \<open>run\<close> is the world after the sequence, \<open>outcomes\<close> tells for each
  call whether it raised.\<close>

fun run :: "world \<Rightarrow> call list \<Rightarrow> world" where
  "run st [] = st"
| "run st (c # cs) = run (world_of (perform st c)) cs"

fun outcomes :: "world \<Rightarrow> call list \<Rightarrow> error option list" where
  "outcomes st [] = []"
| "outcomes st (c # cs) = raised (perform st c) # outcomes (world_of (perform st c)) cs"


subsection \<open>What the claims observe\<close>

text \<open>The live instances of one element and one class name, and the comma-separated
  entries of an element's marker (none when the attribute is absent).\<close>

definition instances_of :: "world \<Rightarrow> element \<Rightarrow> string \<Rightarrow> component list" where
  "instances_of st e b =
     filter (\<lambda>c. element_field c = e \<and> className (mdlComponentConfigInternal c) = b)
       (createdComponents st)"

definition marker_tokens :: "world \<Rightarrow> element \<Rightarrow> string list" where
  "marker_tokens st e = (case data_upgraded st e of None \<Rightarrow> [] | Some s \<Rightarrow> js_split s)"

text \<open>The guard of \<^verbatim>\<open>upgradeElementInternal\<close>: the attribute is absent, or
  \<^verbatim>\<open>indexOf\<close> does not find the class name in it.\<close>

definition not_yet_upgraded :: "world \<Rightarrow> element \<Rightarrow> string option \<Rightarrow> bool" where
  "not_yet_upgraded st e jsClass =
     (case data_upgraded st e of
        None \<Rightarrow> True
      | Some s \<Rightarrow> str_indexOf s (js_string jsClass) = -1)"

definition has_downgrade :: "registration \<Rightarrow> bool" where
  "has_downgrade r = hasOwnProperty (prototype (classConstructor r)) downgradeMethod"

text \<open>The callbacks of the registration that \<^verbatim>\<open>findRegisteredClass_\<close> finds for a
  class name.\<close>

definition callbacks_of :: "world \<Rightarrow> string \<Rightarrow> callback list" where
  "callbacks_of st b =
     (case fst (findRegisteredClass st (Some b) None) of
        None \<Rightarrow> []
      | Some r \<Rightarrow> callbacks r)"

subsection \<open>The two registrations of the file\<close>

text \<open>\<^verbatim>\<open>componentHandler.register\<close> is called twice in the file, for
  \<^verbatim>\<open>MaterialButton\<close> (line 449) and \<^verbatim>\<open>MaterialRipple\<close> (line 693). Both prototypes
  define \<^verbatim>\<open>mdlDowngrade_\<close>.\<close>

definition MaterialButton :: config where
  "MaterialButton =
     \<lparr>cfg_constructor =
        \<lparr>ctor_name = ''MaterialButton'',
         prototype = [''Constant_'', ''CssClasses_'', ''blurHandler'', ''disable'',
                      ''enable'', ''init'', ''mdlDowngrade_'']\<rparr>,
      cfg_classAsString = ''MaterialButton'',
      cfg_cssClass = ''mdl-js-button'',
      cfg_widget = None\<rparr>"

definition MaterialRipple :: config where
  "MaterialRipple =
     \<lparr>cfg_constructor =
        \<lparr>ctor_name = ''MaterialRipple'',
         prototype = [''Constant_'', ''CssClasses_'', ''downHandler_'', ''upHandler_'',
                      ''init'', ''mdlDowngrade_'']\<rparr>,
      cfg_classAsString = ''MaterialRipple'',
      cfg_cssClass = ''mdl-js-ripple-effect'',
      cfg_widget = Some False\<rparr>"

text \<open>Two more classes, for the examples: \<open>Button\<close>, whose name occurs inside
  the name \<^verbatim>\<open>MaterialButton\<close>, and \<open>Tooltip\<close>. Neither prototype defines
  \<^verbatim>\<open>mdlDowngrade_\<close>.\<close>

definition Button :: config where
  "Button =
     \<lparr>cfg_constructor = \<lparr>ctor_name = ''Button'', prototype = [''init'']\<rparr>,
      cfg_classAsString = ''Button'',
      cfg_cssClass = ''js-button'',
      cfg_widget = None\<rparr>"

definition Tooltip :: config where
  "Tooltip =
     \<lparr>cfg_constructor = \<lparr>ctor_name = ''Tooltip'', prototype = [''init'']\<rparr>,
      cfg_classAsString = ''Tooltip'',
      cfg_cssClass = ''js-tooltip'',
      cfg_widget = None\<rparr>"

text \<open>A document with one element, number \<open>0\<close>, that carries both CSS classes, as
  a button with a ripple does.\<close>

definition button_page :: "string \<Rightarrow> element list" where
  "button_page selector =
     (if selector = ''.mdl-js-button'' \<or> selector = ''.mdl-js-ripple-effect'' then [0] else [])"

text \<open>What the file does when it is loaded: the two registrations, and
  \<^verbatim>\<open>upgradeAllRegistered\<close> from the \<^verbatim>\<open>load\<close> listener.\<close>

definition page_load :: "call list" where
  "page_load = [Register MaterialButton, Register MaterialRipple, UpgradeAllRegistered]"

section \<open>Properties\<close>

subsection \<open>Evaluating concrete sequences of calls\<close>

lemmas scenario_defs = run.simps perform.simps world_of.simps raised.simps outcomes.simps
  registerInternal_def initial_world_def newConfig_def MaterialButton_def MaterialRipple_def
  Button_def Tooltip_def hasOwnProperty_def componentConfigProperty_def downgradeMethod_def
  findRegisteredClass_def upgradeElementInternal_def upgradeDomInternal_def upgradeDomClass_def
  upgradeAllRegisteredInternal_def deconstructComponentInternal_def downgradeNode_def
  findCreatedComponentByNodeInternal_def registerUpgradedCallbackInternal_def js_string_def
  arr_splice1_def registration_classAsString_def instances_of_def marker_tokens_def
  button_page_def page_load_def not_yet_upgraded_def has_downgrade_def callbacks_of_def Let_def

lemma run_append: "run st (xs @ ys) = run (run st xs) ys"
  by (induction xs arbitrary: st) simp_all

subsection \<open>Strings and arrays\<close>

lemma str_indexOf_ge: "- 1 \<le> str_indexOf s n"
  by (induction s) (auto simp: Let_def)

text \<open>\<open>str_indexOf\<close> finds the needle exactly when it is a contiguous part of the
  string.\<close>

lemma str_indexOf_sublist: "str_indexOf s n \<noteq> - 1 \<longleftrightarrow> sublist n s"
proof (induction s)
  case Nil
  show ?case by simp
next
  case (Cons c cs)
  have ge: "- 1 \<le> str_indexOf cs n" by (rule str_indexOf_ge)
  show ?case
  proof (cases "prefix n (c # cs)")
    case True
    then show ?thesis by (simp add: sublist_Cons_right)
  next
    case False
    with Cons ge show ?thesis
      by (auto simp: Let_def sublist_Cons_right)
  qed
qed

lemma str_indexOf_appended: "str_indexOf (m @ CHR '','' # b) b \<noteq> - 1"
proof -
  have "sublist b (m @ '','' @ b)"
    by (metis sublist_appendI append.right_neutral append_assoc)
  then show ?thesis by (simp add: str_indexOf_sublist)
qed

lemma arr_indexOf_ge: "- 1 \<le> arr_indexOf xs v"
  by (induction xs) (auto simp: Let_def)

lemma arr_indexOf_mem: "arr_indexOf xs v \<noteq> - 1 \<longleftrightarrow> v \<in> set xs"
proof (induction xs)
  case Nil
  show ?case by simp
next
  case (Cons x xs)
  from arr_indexOf_ge [of xs v] have "arr_indexOf xs v + 1 \<noteq> - 1" by linarith
  with Cons show ?case by (auto simp: Let_def)
qed

lemma arr_splice1_Cons:
  "0 \<le> i \<Longrightarrow> arr_splice1 (i + 1) (y # ys) = y # arr_splice1 i ys"
  by (auto simp: arr_splice1_def Let_def min_def nat_add_distrib)

lemma arr_splice1_0: "arr_splice1 0 (y # ys) = ys"
  by (simp add: arr_splice1_def)

text \<open>\<^verbatim>\<open>a.splice(a.indexOf(v), 1)\<close> removes the first occurrence of a value that the
  array holds.\<close>

lemma arr_splice1_indexOf:
  "v \<in> set xs \<Longrightarrow> arr_splice1 (arr_indexOf xs v) xs = remove1 v xs"
proof (induction xs)
  case Nil
  then show ?case by simp
next
  case (Cons x xs)
  show ?case
  proof (cases "x = v")
    case True
    then show ?thesis by (simp add: arr_splice1_0)
  next
    case False
    with Cons.prems have m: "v \<in> set xs" by simp
    then have ne: "arr_indexOf xs v \<noteq> - 1" by (simp add: arr_indexOf_mem)
    with arr_indexOf_ge [of xs v] have "0 \<le> arr_indexOf xs v" by linarith
    with False Cons.IH [OF m] ne show ?thesis
      by (simp add: Let_def arr_splice1_Cons)
  qed
qed

text \<open>With \<open>-1\<close>, the index of a value the array does not hold, \<^verbatim>\<open>splice\<close> removes the
  last element; and \<^verbatim>\<open>undefined\<close> is never among the pieces of a string.\<close>

lemma arr_splice1_minus1: "arr_splice1 (- 1) xs = butlast xs"
  by (cases xs rule: rev_cases) (auto simp: arr_splice1_def Let_def)

lemma arr_indexOf_undefined: "arr_indexOf (map Some ts) None = - 1"
  by (induction ts) (auto simp: Let_def)

lemma filter_remove1_other: "\<not> P v \<Longrightarrow> filter P (remove1 v xs) = filter P xs"
  by (induction xs) auto

subsection \<open>The registry\<close>

lemma findRegisteredIndex_Some:
  "findRegisteredIndex rs name = Some i \<Longrightarrow> i < length rs \<and> Some (className (rs ! i)) = name"
  by (induction rs arbitrary: i) (auto split: if_splits)

lemma findRegisteredIndex_None:
  "findRegisteredIndex rs name = None \<longleftrightarrow> (\<forall>r \<in> set rs. Some (className r) \<noteq> name)"
  by (induction rs) auto

lemma check_registered_None:
  "check_registered rs new = None \<longleftrightarrow>
     (\<forall>r \<in> set rs. cssClass r \<noteq> cssClass new \<and> className r \<noteq> className new)"
  by (induction rs) auto

lemma check_registered_Some:
  "check_registered rs new = Some e \<Longrightarrow>
     e = CssClassAlreadyRegistered \<or> e = ClassNameAlreadyRegistered"
  by (induction rs) (auto split: if_splits)

text \<open>A call of \<^verbatim>\<open>registerInternal\<close> that returns has found no item with the class
  name, so \<^verbatim>\<open>findRegisteredClass_\<close> finds none to replace and the registration is
  pushed.\<close>

lemma registerInternal_Done:
  assumes "registerInternal st cfg = Done st'"
  shows "st' = st\<lparr>registeredComponents := registeredComponents st @ [newConfig cfg]\<rparr>"
    and "check_registered (registeredComponents st) (newConfig cfg) = None"
    and "\<not> hasOwnProperty (prototype (cfg_constructor cfg)) componentConfigProperty"
proof -
  from assms show c: "check_registered (registeredComponents st) (newConfig cfg) = None"
    by (auto simp: registerInternal_def split: option.splits)
  from assms show p: "\<not> hasOwnProperty (prototype (cfg_constructor cfg)) componentConfigProperty"
    by (auto simp: registerInternal_def split: option.splits if_splits)
  from c have "findRegisteredIndex (registeredComponents st) (Some (cfg_classAsString cfg)) = None"
    by (auto simp: check_registered_None findRegisteredIndex_None newConfig_def)
  with assms c p
  show "st' = st\<lparr>registeredComponents := registeredComponents st @ [newConfig cfg]\<rparr>"
    by (auto simp: registerInternal_def findRegisteredClass_def)
qed

lemma registerInternal_Thrown:
  "registerInternal st cfg = Thrown e st' \<Longrightarrow> st' = st"
  by (auto simp: registerInternal_def findRegisteredClass_def
      split: option.splits if_splits prod.splits)

lemma registerInternal_same_className:
  assumes "cfg_classAsString cfg \<in> set (map className (registeredComponents st))"
  shows "registerInternal st cfg = Thrown CssClassAlreadyRegistered st \<or>
         registerInternal st cfg = Thrown ClassNameAlreadyRegistered st"
proof -
  from assms have "check_registered (registeredComponents st) (newConfig cfg) \<noteq> None"
    by (auto simp: check_registered_None newConfig_def)
  then obtain e where e: "check_registered (registeredComponents st) (newConfig cfg) = Some e"
    by auto
  then have "registerInternal st cfg = Thrown e st"
    by (simp add: registerInternal_def)
  with check_registered_Some [OF e] show ?thesis by auto
qed

subsection \<open>Upgrading one element\<close>

lemma upgradeElementInternal_noop:
  "\<not> not_yet_upgraded st e j \<Longrightarrow> upgradeElementInternal st e j = Done st"
  by (auto simp: upgradeElementInternal_def not_yet_upgraded_def split: option.splits)




text \<open>The guard stops the call whenever the class name is a contiguous part of the
  marker string.\<close>

lemma upgradeElementInternal_substring:
  "data_upgraded st e = Some m \<Longrightarrow> sublist (js_string j) m \<Longrightarrow>
     upgradeElementInternal st e j = Done st"
  by (rule upgradeElementInternal_noop) (simp add: not_yet_upgraded_def str_indexOf_sublist)

subsection \<open>Downgrading\<close>

lemma findCreated_mem:
  "findCreatedComponentByNodeInternal st n = Some c \<Longrightarrow>
     c \<in> set (createdComponents st) \<and> element_field c = n"
  by (auto simp: findCreatedComponentByNodeInternal_def find_Some_iff)

lemma deconstruct_no_hook:
  "(case c0 of None \<Rightarrow> True | Some c \<Rightarrow> \<not> has_downgrade (mdlComponentConfigInternal c)) \<Longrightarrow>
     deconstructComponentInternal st c0 = Done st"
  by (auto simp: deconstructComponentInternal_def has_downgrade_def split: option.splits)

lemma deconstruct_created:
  assumes "c \<in> set (createdComponents st)"
    and "has_downgrade (mdlComponentConfigInternal c)"
  shows "createdComponents (world_of (deconstructComponentInternal st (Some c))) =
           remove1 c (createdComponents st)"
  using assms
  by (auto simp: deconstructComponentInternal_def has_downgrade_def Let_def arr_splice1_indexOf
      split: option.splits)

lemma downgradeNode_keeps_no_hook:
  "filter (\<lambda>c. \<not> has_downgrade (mdlComponentConfigInternal c))
       (createdComponents (world_of (downgradeNode st n))) =
   filter (\<lambda>c. \<not> has_downgrade (mdlComponentConfigInternal c)) (createdComponents st)"
proof (cases "findCreatedComponentByNodeInternal st n")
  case None
  then show ?thesis by (simp add: downgradeNode_def deconstruct_no_hook)
next
  case (Some c)
  show ?thesis
  proof (cases "has_downgrade (mdlComponentConfigInternal c)")
    case True
    from findCreated_mem [OF Some] have "c \<in> set (createdComponents st)" by simp
    from deconstruct_created [OF this True] Some True show ?thesis
      by (simp add: downgradeNode_def filter_remove1_other)
  next
    case False
    with Some show ?thesis by (simp add: downgradeNode_def deconstruct_no_hook)
  qed
qed

lemma downgradeNodeList_keeps_no_hook:
  "filter (\<lambda>c. \<not> has_downgrade (mdlComponentConfigInternal c))
       (createdComponents (world_of (downgradeNodeList st ns))) =
   filter (\<lambda>c. \<not> has_downgrade (mdlComponentConfigInternal c)) (createdComponents st)"
proof (induction ns arbitrary: st)
  case Nil
  show ?case by simp
next
  case (Cons n ns)
  show ?case
  proof (cases "downgradeNode st n")
    case (Done st')
    with Cons [of st'] downgradeNode_keeps_no_hook [of st n] show ?thesis by simp
  next
    case (Thrown err st')
    with downgradeNode_keeps_no_hook [of st n] show ?thesis by simp
  qed
qed

subsection \<open>What the functions leave alone\<close>

text \<open>Upgrading and downgrading change neither the registry nor the document.\<close>

lemma upgradeElementInternal_frame:
  "registeredComponents (world_of (upgradeElementInternal st e j)) = registeredComponents st \<and>
   querySelectorAll (world_of (upgradeElementInternal st e j)) = querySelectorAll st"
  by (auto simp: upgradeElementInternal_def findRegisteredClass_def Let_def split: option.splits)

lemma upgradeElements_frame:
  "registeredComponents (world_of (upgradeElements st es j)) = registeredComponents st \<and>
   querySelectorAll (world_of (upgradeElements st es j)) = querySelectorAll st"
proof (induction es arbitrary: st)
  case Nil
  show ?case by simp
next
  case (Cons e es)
  show ?case
  proof (cases "upgradeElementInternal st e j")
    case (Done st')
    with Cons [of st'] upgradeElementInternal_frame [of st e j] show ?thesis by simp
  next
    case (Thrown err st')
    with upgradeElementInternal_frame [of st e j] show ?thesis by simp
  qed
qed

lemma upgradeDomClass_registry:
  "registeredComponents (world_of (upgradeDomClass st j c)) = registeredComponents st \<and>
   querySelectorAll (world_of (upgradeDomClass st j c)) = querySelectorAll st"
  by (simp add: upgradeDomClass_def Let_def upgradeElements_frame)

lemma upgradeDomAll_frame:
  "registeredComponents (world_of (upgradeDomAll st rs)) = registeredComponents st \<and>
   querySelectorAll (world_of (upgradeDomAll st rs)) = querySelectorAll st"
proof (induction rs arbitrary: st)
  case Nil
  show ?case by simp
next
  case (Cons r rs)
  show ?case
  proof (cases "upgradeDomClass st (Some (className r)) (Some (cssClass r))")
    case (Done st')
    with Cons [of st'] upgradeDomClass_registry [of st "Some (className r)" "Some (cssClass r)"]
    show ?thesis by simp
  next
    case (Thrown err st')
    with upgradeDomClass_registry [of st "Some (className r)" "Some (cssClass r)"]
    show ?thesis by simp
  qed
qed

lemma upgradeDomInternal_frame:
  "registeredComponents (world_of (upgradeDomInternal st j c)) = registeredComponents st \<and>
   querySelectorAll (world_of (upgradeDomInternal st j c)) = querySelectorAll st"
  by (simp add: upgradeDomInternal_def upgradeDomAll_frame upgradeDomClass_registry)

lemma upgradeAllLoop_frame:
  "registeredComponents (world_of (upgradeAllLoop st rs)) = registeredComponents st \<and>
   querySelectorAll (world_of (upgradeAllLoop st rs)) = querySelectorAll st"
proof (induction rs arbitrary: st)
  case Nil
  show ?case by simp
next
  case (Cons r rs)
  show ?case
  proof (cases "upgradeDomInternal st (Some (className r)) None")
    case (Done st')
    with Cons [of st'] upgradeDomInternal_frame [of st "Some (className r)" None]
    show ?thesis by simp
  next
    case (Thrown err st')
    with upgradeDomInternal_frame [of st "Some (className r)" None]
    show ?thesis by simp
  qed
qed

lemma deconstruct_frame:
  "registeredComponents (world_of (deconstructComponentInternal st c0)) = registeredComponents st \<and>
   querySelectorAll (world_of (deconstructComponentInternal st c0)) = querySelectorAll st"
  by (auto simp: deconstructComponentInternal_def Let_def split: option.splits)

lemma downgradeNodeList_frame:
  "registeredComponents (world_of (downgradeNodeList st ns)) = registeredComponents st \<and>
   querySelectorAll (world_of (downgradeNodeList st ns)) = querySelectorAll st"
proof (induction ns arbitrary: st)
  case Nil
  show ?case by simp
next
  case (Cons n ns)
  show ?case
  proof (cases "downgradeNode st n")
    case (Done st')
    with Cons [of st'] deconstruct_frame [of st "findCreatedComponentByNodeInternal st n"]
    show ?thesis by (simp add: downgradeNode_def)
  next
    case (Thrown err st')
    with deconstruct_frame [of st "findCreatedComponentByNodeInternal st n"]
    show ?thesis by (simp add: downgradeNode_def)
  qed
qed

lemma downgradeNodesInternal_frame:
  "registeredComponents (world_of (downgradeNodesInternal st ns)) = registeredComponents st \<and>
   querySelectorAll (world_of (downgradeNodesInternal st ns)) = querySelectorAll st"
  by (cases ns) (simp_all add: downgradeNodeList_frame downgradeNode_def deconstruct_frame)

subsection \<open>Class names stay distinct\<close>

text \<open>\<^verbatim>\<open>registerInternal\<close> is the only function that adds a registration or changes a
  class name, and it accepts no class name twice.\<close>

lemma findRegisteredIndex_distinct:
  "distinct (map className rs) \<Longrightarrow> r \<in> set rs \<Longrightarrow>
     \<exists>i. findRegisteredIndex rs (Some (className r)) = Some i \<and> rs ! i = r"
proof (induction rs)
  case Nil
  then show ?case by simp
next
  case (Cons x rs)
  show ?case
  proof (cases "className x = className r")
    case True
    with Cons.prems have "x = r" by (auto simp: image_iff)
    with True show ?thesis by simp
  next
    case False
    with Cons.prems have "r \<in> set rs" "distinct (map className rs)" by auto
    from Cons.IH [OF this(2,1)] False show ?thesis by auto
  qed
qed

lemma upgradeDomInternal_one_arg:
  assumes "distinct (map className (registeredComponents st))"
    and "r \<in> set (registeredComponents st)"
  shows "upgradeDomInternal st (Some (className r)) None =
         upgradeDomClass st (Some (className r)) (Some (cssClass r))"
proof -
  from findRegisteredIndex_distinct [OF assms]
  obtain i where "findRegisteredIndex (registeredComponents st) (Some (className r)) = Some i"
    and "registeredComponents st ! i = r" by blast
  then show ?thesis
    by (simp add: upgradeDomInternal_def upgradeDomClass_def findRegisteredClass_def)
qed

lemma upgradeAllLoop_upgradeDomAll:
  assumes "distinct (map className (registeredComponents st))"
    and "set rs \<subseteq> set (registeredComponents st)"
  shows "upgradeAllLoop st rs = upgradeDomAll st rs"
  using assms
proof (induction rs arbitrary: st)
  case Nil
  show ?case by simp
next
  case (Cons r rs)
  from Cons.prems have r: "r \<in> set (registeredComponents st)" by simp
  note one = upgradeDomInternal_one_arg [OF Cons.prems(1) r]
  show ?case
  proof (cases "upgradeDomClass st (Some (className r)) (Some (cssClass r))")
    case (Done st')
    with upgradeDomClass_registry [of st "Some (className r)" "Some (cssClass r)"]
    have "registeredComponents st' = registeredComponents st" by simp
    with Cons.prems have "upgradeAllLoop st' rs = upgradeDomAll st' rs"
      by (intro Cons.IH) simp_all
    with one Done show ?thesis by simp
  next
    case (Thrown err st')
    with one show ?thesis by simp
  qed
qed

lemma upgradeAllRegistered_distinct:
  "distinct (map className (registeredComponents st)) \<Longrightarrow>
     upgradeAllRegisteredInternal st = upgradeDomInternal st None None"
  by (simp add: upgradeAllRegisteredInternal_def upgradeDomInternal_def
      upgradeAllLoop_upgradeDomAll)

lemma registerUpgradedCallback_classNames:
  "map className (registeredComponents (world_of (registerUpgradedCallbackInternal st j cb))) =
     map className (registeredComponents st)"
proof (cases "findRegisteredIndex (registeredComponents st) j")
  case None
  then show ?thesis by (simp add: registerUpgradedCallbackInternal_def)
next
  case (Some i)
  from findRegisteredIndex_Some [OF Some] have "i < length (registeredComponents st)" by simp
  with Some show ?thesis
    by (simp add: registerUpgradedCallbackInternal_def Let_def map_update list_update_same_conv)
qed

lemma registerInternal_distinct:
  assumes "distinct (map className (registeredComponents st))"
  shows "distinct (map className (registeredComponents (world_of (registerInternal st cfg))))"
proof (cases "registerInternal st cfg")
  case (Done st')
  from registerInternal_Done(1,2) [OF Done] assms Done show ?thesis
    by (auto simp: check_registered_None)
next
  case (Thrown err st')
  with registerInternal_Thrown [OF Thrown] assms show ?thesis by simp
qed

lemma perform_distinct:
  assumes "distinct (map className (registeredComponents st))"
  shows "distinct (map className (registeredComponents (world_of (perform st c))))"
  using assms
  by (cases c)
    (simp_all add: upgradeDomInternal_frame upgradeElementInternal_frame
      upgradeAllRegisteredInternal_def upgradeAllLoop_frame registerUpgradedCallback_classNames
      registerInternal_distinct downgradeNodesInternal_frame)

lemma run_distinct:
  "distinct (map className (registeredComponents st)) \<Longrightarrow>
     distinct (map className (registeredComponents (run st cs)))"
  by (induction cs arbitrary: st) (simp_all add: perform_distinct)

subsection \<open>The callbacks of a registration\<close>

text \<open>A registration keeps its place in the registry, and its list of callbacks only
  grows at the end.\<close>

lemma findRegisteredIndex_classNames:
  "map className rs' = map className rs \<Longrightarrow>
     findRegisteredIndex rs' name = findRegisteredIndex rs name"
proof (induction rs arbitrary: rs')
  case Nil
  then show ?case by simp
next
  case (Cons r rs)
  then obtain r' rs'' where "rs' = r' # rs''" "className r' = className r"
    "map className rs'' = map className rs" by (cases rs') auto
  with Cons.IH [of rs''] show ?case by simp
qed

lemma registerUpgradedCallback_index:
  "findRegisteredIndex
     (registeredComponents (world_of (registerUpgradedCallbackInternal st j cb))) name =
   findRegisteredIndex (registeredComponents st) name"
  by (rule findRegisteredIndex_classNames) (rule registerUpgradedCallback_classNames)

lemma findRegisteredIndex_append:
  "findRegisteredIndex rs name = Some i \<Longrightarrow> findRegisteredIndex (rs @ ys) name = Some i"
  by (induction rs arbitrary: i) (auto split: if_splits)

lemma callbacks_of_index:
  "callbacks_of st b =
     (case findRegisteredIndex (registeredComponents st) (Some b) of
        None \<Rightarrow> []
      | Some i \<Rightarrow> callbacks (registeredComponents st ! i))"
  by (simp add: callbacks_of_def findRegisteredClass_def split: option.splits)

lemma callbacks_of_same_registry:
  "registeredComponents st' = registeredComponents st \<Longrightarrow> callbacks_of st' b = callbacks_of st b"
  unfolding callbacks_of_index by (simp split: option.splits)

lemma registerUpgradedCallback_callbacks_of:
  assumes "findRegisteredIndex (registeredComponents st) (Some b) \<noteq> None"
  shows "callbacks_of (world_of (registerUpgradedCallbackInternal st j cb)) b =
           (if j = Some b then callbacks_of st b @ [cb] else callbacks_of st b)"
proof -
  from assms obtain i where i: "findRegisteredIndex (registeredComponents st) (Some b) = Some i"
    by auto
  note ib = findRegisteredIndex_Some [OF i]
  let ?st' = "world_of (registerUpgradedCallbackInternal st j cb)"
  from i have i': "findRegisteredIndex (registeredComponents ?st') (Some b) = Some i"
    by (simp add: registerUpgradedCallback_index)
  show ?thesis
  proof (cases "findRegisteredIndex (registeredComponents st) j")
    case None
    with i have "j \<noteq> Some b" by auto
    with None show ?thesis
      by (simp add: registerUpgradedCallbackInternal_def callbacks_of_index)
  next
    case (Some k)
    note kb = findRegisteredIndex_Some [OF Some]
    show ?thesis
    proof (cases "j = Some b")
      case True
      with Some i have "k = i" by simp
      with True Some i i' ib show ?thesis
        by (simp add: registerUpgradedCallbackInternal_def callbacks_of_index Let_def)
    next
      case False
      with kb ib have "k \<noteq> i" by auto
      with False Some i i' ib show ?thesis
        by (simp add: registerUpgradedCallbackInternal_def callbacks_of_index Let_def)
    qed
  qed
qed

lemma registerInternal_callbacks_of:
  assumes "findRegisteredIndex (registeredComponents st) (Some b) \<noteq> None"
  shows "callbacks_of (world_of (registerInternal st cfg)) b = callbacks_of st b \<and>
         findRegisteredIndex (registeredComponents (world_of (registerInternal st cfg))) (Some b)
           \<noteq> None"
proof (cases "registerInternal st cfg")
  case (Done st')
  from assms obtain i where i: "findRegisteredIndex (registeredComponents st) (Some b) = Some i"
    by auto
  from findRegisteredIndex_Some [OF i] have ib: "i < length (registeredComponents st)" by simp
  from registerInternal_Done(1) [OF Done]
  have regs: "registeredComponents st' = registeredComponents st @ [newConfig cfg]" by simp
  from findRegisteredIndex_append [OF i, of "[newConfig cfg]"] regs
  have i': "findRegisteredIndex (registeredComponents st') (Some b) = Some i" by simp
  from ib regs have "registeredComponents st' ! i = registeredComponents st ! i"
    by (simp add: nth_append)
  with i i' Done show ?thesis
    by (simp add: callbacks_of_index)
next
  case (Thrown err st')
  with registerInternal_Thrown [OF Thrown] assms show ?thesis by simp
qed

lemma same_registry_callbacks_of:
  assumes "registeredComponents st' = registeredComponents st"
    and "findRegisteredIndex (registeredComponents st) (Some b) \<noteq> None"
  shows "findRegisteredIndex (registeredComponents st') (Some b) \<noteq> None \<and>
         prefix (callbacks_of st b) (callbacks_of st' b)"
  using assms callbacks_of_same_registry [OF assms(1), of b] by simp

lemma perform_callbacks_of:
  assumes "findRegisteredIndex (registeredComponents st) (Some b) \<noteq> None"
  shows "findRegisteredIndex (registeredComponents (world_of (perform st c))) (Some b) \<noteq> None \<and>
         prefix (callbacks_of st b) (callbacks_of (world_of (perform st c)) b)"
proof (cases c)
  case (UpgradeDom j css)
  from upgradeDomInternal_frame [of st j css]
  have "registeredComponents (world_of (perform st c)) = registeredComponents st"
    by (simp add: UpgradeDom)
  from same_registry_callbacks_of [OF this assms] show ?thesis .
next
  case (UpgradeElement e j)
  from upgradeElementInternal_frame [of st e j]
  have "registeredComponents (world_of (perform st c)) = registeredComponents st"
    by (simp add: UpgradeElement)
  from same_registry_callbacks_of [OF this assms] show ?thesis .
next
  case UpgradeAllRegistered
  from upgradeAllLoop_frame [of st "registeredComponents st"]
  have "registeredComponents (world_of (perform st c)) = registeredComponents st"
    by (simp add: UpgradeAllRegistered upgradeAllRegisteredInternal_def)
  from same_registry_callbacks_of [OF this assms] show ?thesis .
next
  case (RegisterUpgradedCallback j cb)
  from assms
  have "findRegisteredIndex
          (registeredComponents (world_of (registerUpgradedCallbackInternal st j cb))) (Some b)
        \<noteq> None"
    by (simp add: registerUpgradedCallback_index)
  with registerUpgradedCallback_callbacks_of [OF assms, of j cb] RegisterUpgradedCallback
  show ?thesis by simp
next
  case (Register cfg)
  with registerInternal_callbacks_of [OF assms, of cfg] show ?thesis by simp
next
  case (DowngradeElements ns)
  from downgradeNodesInternal_frame [of st ns]
  have "registeredComponents (world_of (perform st c)) = registeredComponents st"
    by (simp add: DowngradeElements)
  from same_registry_callbacks_of [OF this assms] show ?thesis .
qed

lemma run_callbacks_of:
  "findRegisteredIndex (registeredComponents st) (Some b) \<noteq> None \<Longrightarrow>
     findRegisteredIndex (registeredComponents (run st cs)) (Some b) \<noteq> None \<and>
     prefix (callbacks_of st b) (callbacks_of (run st cs) b)"
proof (induction cs arbitrary: st)
  case Nil
  then show ?case by simp
next
  case (Cons c cs)
  from perform_callbacks_of [OF Cons.prems, of c]
  have 1: "findRegisteredIndex (registeredComponents (world_of (perform st c))) (Some b) \<noteq> None"
    and 2: "prefix (callbacks_of st b) (callbacks_of (world_of (perform st c)) b)"
    by simp_all
  from Cons.IH [OF 1] 2 show ?case
    by (auto intro: prefix_order.trans)
qed

lemma upgradeElementInternal_trace:
  assumes "not_yet_upgraded st e (Some b)"
    and "findRegisteredIndex (registeredComponents st) (Some b) = Some i"
  shows "\<exists>st'. upgradeElementInternal st e (Some b) = Done st' \<and>
           trace st' = trace st
             @ [Constructed (classConstructor (registeredComponents st ! i)) e]
             @ map (\<lambda>callback. CallbackCalled callback e) (callbacks_of st b)
             @ [Dispatched ''mdl-componentupgraded'' e]"
  using assms
  by (auto simp: upgradeElementInternal_def not_yet_upgraded_def findRegisteredClass_def
      callbacks_of_index Let_def split: option.splits)

subsection \<open>An element upgraded for the first time\<close>

text \<open>What \<^verbatim>\<open>upgradeElementInternal\<close> does when its guard lets the call pass and the
  class is registered, and two consequences for an element and a class name without
  comma: a second call changes nothing; and for an element that has no marker and no
  component, and a class with downgrade method, the sequence upgrade, downgrade, upgrade
  ends with one component and the marker \<open>,B\<close>.\<close>

lemma js_split_not_Nil: "js_split s \<noteq> []"
  by (induction s) (auto split: list.splits)

lemma js_split_no_comma: "CHR '','' \<notin> set b \<Longrightarrow> js_split b = [b]"
  by (induction b) auto

lemma js_split_append_token:
  "CHR '','' \<notin> set b \<Longrightarrow> js_split (m @ CHR '','' # b) = js_split m @ [b]"
proof (induction m)
  case Nil
  then show ?case by (simp add: js_split_no_comma)
next
  case (Cons c m)
  then show ?case
    using js_split_not_Nil [of m] by (cases "js_split m") auto
qed

lemma upgradeElementInternal_upgrades:
  assumes "not_yet_upgraded st e (Some b)"
    and "findRegisteredIndex (registeredComponents st) (Some b) = Some i"
  shows "\<exists>st1. upgradeElementInternal st e (Some b) = Done st1 \<and>
           createdComponents st1 = createdComponents st @
             [\<lparr>element_field = e, mdlComponentConfigInternal = registeredComponents st ! i\<rparr>] \<and>
           data_upgraded st1 = (data_upgraded st)
             (e \<mapsto> (case data_upgraded st e of None \<Rightarrow> [] | Some s \<Rightarrow> s) @ CHR '','' # b) \<and>
           registeredComponents st1 = registeredComponents st"
  using assms
  by (auto simp: upgradeElementInternal_def not_yet_upgraded_def findRegisteredClass_def
      js_string_def Let_def split: option.splits)

lemma upgradeElement_twice_first_time:
  assumes "not_yet_upgraded st e (Some b)"
    and "findRegisteredIndex (registeredComponents st) (Some b) = Some i"
  shows "\<exists>st1. upgradeElementInternal st e (Some b) = Done st1 \<and>
           upgradeElementInternal st1 e (Some b) = Done st1 \<and>
           instances_of st1 e b = instances_of st e b @
             [\<lparr>element_field = e, mdlComponentConfigInternal = registeredComponents st ! i\<rparr>] \<and>
           (CHR '','' \<notin> set b \<longrightarrow>
              marker_tokens st1 e =
                (case data_upgraded st e of None \<Rightarrow> [[]] | Some s \<Rightarrow> js_split s) @ [b])"
proof -
  from upgradeElementInternal_upgrades [OF assms] obtain st1
    where u: "upgradeElementInternal st e (Some b) = Done st1"
      and c: "createdComponents st1 = createdComponents st @
             [\<lparr>element_field = e, mdlComponentConfigInternal = registeredComponents st ! i\<rparr>]"
      and m: "data_upgraded st1 = (data_upgraded st)
             (e \<mapsto> (case data_upgraded st e of None \<Rightarrow> [] | Some s \<Rightarrow> s) @ CHR '','' # b)"
    by blast
  from m have "\<not> not_yet_upgraded st1 e (Some b)"
    by (simp add: not_yet_upgraded_def js_string_def str_indexOf_appended)
  then have n: "upgradeElementInternal st1 e (Some b) = Done st1"
    by (rule upgradeElementInternal_noop)
  from findRegisteredIndex_Some [OF assms(2)] c
  have i: "instances_of st1 e b = instances_of st e b @
             [\<lparr>element_field = e, mdlComponentConfigInternal = registeredComponents st ! i\<rparr>]"
    by (simp add: instances_of_def)
  from m have "CHR '','' \<notin> set b \<longrightarrow>
              marker_tokens st1 e =
                (case data_upgraded st e of None \<Rightarrow> [[]] | Some s \<Rightarrow> js_split s) @ [b]"
    by (auto simp: marker_tokens_def js_split_append_token js_split_no_comma split: option.splits)
  with u n i show ?thesis by blast
qed

lemma find_append_last:
  "find P xs = None \<Longrightarrow> P x \<Longrightarrow> find P (xs @ [x]) = Some x"
  by (induction xs) (auto split: if_splits)

lemma remove1_append_last: "x \<notin> set xs \<Longrightarrow> remove1 x (xs @ [x]) = xs"
  by (induction xs) auto

lemma upgrade_downgrade_upgrade_single:
  assumes fresh: "data_upgraded st e = None"
    and none: "findCreatedComponentByNodeInternal st e = None"
    and reg: "findRegisteredIndex (registeredComponents st) (Some b) = Some i"
    and hook: "has_downgrade (registeredComponents st ! i)"
    and b: "b \<noteq> []" "CHR '','' \<notin> set b"
  shows "outcomes st [UpgradeElement e (Some b), DowngradeElements (Node e),
                      UpgradeElement e (Some b)] = [None, None, None] \<and>
         instances_of
           (run st [UpgradeElement e (Some b), DowngradeElements (Node e),
                    UpgradeElement e (Some b)]) e b
           = [\<lparr>element_field = e, mdlComponentConfigInternal = registeredComponents st ! i\<rparr>] \<and>
         marker_tokens
           (run st [UpgradeElement e (Some b), DowngradeElements (Node e),
                    UpgradeElement e (Some b)]) e = [[], b]"
proof -
  let ?inst = "\<lparr>element_field = e, mdlComponentConfigInternal = registeredComponents st ! i\<rparr>"
  from fresh have g: "not_yet_upgraded st e (Some b)"
    by (simp add: not_yet_upgraded_def)
  from upgradeElementInternal_upgrades [OF g reg] fresh obtain st1
    where u1: "upgradeElementInternal st e (Some b) = Done st1"
      and c1: "createdComponents st1 = createdComponents st @ [?inst]"
      and m1: "data_upgraded st1 = (data_upgraded st)(e \<mapsto> CHR '','' # b)"
      and r1: "registeredComponents st1 = registeredComponents st"
    by auto
  from none have nf: "find (\<lambda>c. element_field c = e) (createdComponents st) = None"
    by (simp add: findCreatedComponentByNodeInternal_def)
  then have notin: "?inst \<notin> set (createdComponents st)"
    by (auto simp: find_None_iff)
  from nf c1 have f1: "findCreatedComponentByNodeInternal st1 e = Some ?inst"
    by (simp add: findCreatedComponentByNodeInternal_def find_append_last)
  from c1 have mem: "?inst \<in> set (createdComponents st1)" by simp
  from b(2) have sp: "js_split (CHR '','' # b) = [[], b]"
    by (simp add: js_split_no_comma)
  obtain st2 where d: "downgradeNode st1 e = Done st2"
    and c2: "createdComponents st2 = createdComponents st"
    and m2: "data_upgraded st2 = (data_upgraded st)(e \<mapsto> [])"
    and r2: "registeredComponents st2 = registeredComponents st"
    using f1 hook mem m1 c1 notin r1 sp
    by (simp add: downgradeNode_def deconstructComponentInternal_def has_downgrade_def Let_def
        arr_splice1_indexOf remove1_append_last arr_indexOf_undefined arr_splice1_minus1
        registration_classAsString_def)
  from m2 b(1) have g2: "not_yet_upgraded st2 e (Some b)"
    by (cases b) (simp_all add: not_yet_upgraded_def js_string_def)
  from r2 reg have reg2: "findRegisteredIndex (registeredComponents st2) (Some b) = Some i"
    by simp
  from upgradeElementInternal_upgrades [OF g2 reg2] m2 c2 r2 obtain st3
    where u3: "upgradeElementInternal st2 e (Some b) = Done st3"
      and c3: "createdComponents st3 = createdComponents st @ [?inst]"
      and m3: "data_upgraded st3 = (data_upgraded st)(e \<mapsto> CHR '','' # b)"
    by auto
  from nf have "filter (\<lambda>c. element_field c = e \<and> className (mdlComponentConfigInternal c) = b)
                  (createdComponents st) = []"
    by (auto simp: find_None_iff filter_empty_conv)
  with c3 findRegisteredIndex_Some [OF reg] have i3: "instances_of st3 e b = [?inst]"
    by (simp add: instances_of_def)
  from m3 sp have t3: "marker_tokens st3 e = [[], b]"
    by (simp add: marker_tokens_def)
  from u1 d u3 i3 t3 show ?thesis by simp
qed


text \<open>The second way in which two calls of \<^verbatim>\<open>upgradeElement\<close> leave more than one
  component: the page has been loaded and its element downgraded, which took the button
  out of the list and \<^verbatim>\<open>MaterialRipple\<close> out of the marker.\<close>

lemma upgradeElement_twice_after_downgrade:
  "outcomes (initial_world button_page)
     (page_load @ [DowngradeElements (Node 0),
        UpgradeElement 0 (Some ''MaterialRipple''), UpgradeElement 0 (Some ''MaterialRipple'')])
     = [None, None, None, None, None, None] \<and>
   length (instances_of
     (run (initial_world button_page)
        (page_load @ [DowngradeElements (Node 0),
           UpgradeElement 0 (Some ''MaterialRipple''), UpgradeElement 0 (Some ''MaterialRipple'')]))
     0 ''MaterialRipple'') = 2"
  by (simp add: scenario_defs)

text \<open>The sequence upgrade, downgrade, upgrade with \<^verbatim>\<open>MaterialRipple\<close> on the loaded
  page: the downgrade takes the button out of the list and \<^verbatim>\<open>MaterialRipple\<close> out of
  the marker, and the last call creates a second \<^verbatim>\<open>MaterialRipple\<close> for the
  element.\<close>

lemma upgrade_downgrade_upgrade_two_instances:
  "has_downgrade (newConfig MaterialButton) \<and> has_downgrade (newConfig MaterialRipple) \<and>
   outcomes (initial_world button_page)
     (page_load @
      [UpgradeElement 0 (Some ''MaterialRipple''), DowngradeElements (Node 0),
       UpgradeElement 0 (Some ''MaterialRipple'')])
     = [None, None, None, None, None, None] \<and>
   instances_of (run (initial_world button_page) page_load) 0 ''MaterialRipple''
     = [\<lparr>element_field = 0, mdlComponentConfigInternal = newConfig MaterialRipple\<rparr>] \<and>
   marker_tokens (run (initial_world button_page) page_load) 0
     = ['''', ''MaterialButton'', ''MaterialRipple''] \<and>
   marker_tokens
     (run (initial_world button_page)
        (page_load @
         [UpgradeElement 0 (Some ''MaterialRipple''), DowngradeElements (Node 0)])) 0
     = ['''', ''MaterialButton''] \<and>
   instances_of
     (run (initial_world button_page)
        (page_load @
         [UpgradeElement 0 (Some ''MaterialRipple''), DowngradeElements (Node 0),
          UpgradeElement 0 (Some ''MaterialRipple'')]))
     0 ''MaterialRipple''
     = [\<lparr>element_field = 0, mdlComponentConfigInternal = newConfig MaterialRipple\<rparr>,
        \<lparr>element_field = 0, mdlComponentConfigInternal = newConfig MaterialRipple\<rparr>] \<and>
   marker_tokens
     (run (initial_world button_page)
        (page_load @
         [UpgradeElement 0 (Some ''MaterialRipple''), DowngradeElements (Node 0),
          UpgradeElement 0 (Some ''MaterialRipple'')])) 0
     = ['''', ''MaterialButton'', ''MaterialRipple'']"
  by (simp add: scenario_defs)

subsection \<open>A marker that holds a class name\<close>














section \<open>The claims\<close>

subsection \<open>C1: upgrading the same element twice\<close>

text \<open>
  Claim C1 says that two calls of \<^verbatim>\<open>upgradeElement(E, B)\<close> in sequence, for any
  element and any registered class, leave exactly one component of \<open>E\<close> and \<open>B\<close> in
  the list and \<open>B\<close> exactly once among the entries of the marker of \<open>E\<close>.

  The source does not do this for every element. Its guard is
  \<^verbatim>\<open>dataUpgraded.indexOf(jsClass) === -1\<close> on the marker string, which also finds a class
  name inside a longer one. Below, \<^verbatim>\<open>MaterialButton\<close> and \<open>Button\<close> are registered and
  element \<open>0\<close> has been upgraded with \<^verbatim>\<open>MaterialButton\<close>. Both calls of
  \<^verbatim>\<open>upgradeElement(0, 'Button')\<close> return without raising; there is no component of the
  element and \<open>Button\<close>, and \<open>Button\<close> is not among the entries of the marker.

  When the guard lets the first call pass, the two calls do add exactly one component
  and one entry (lemma \<open>upgradeElement_twice_first_time\<close>).
\<close>

theorem upgradeElement_twice_substring_id:
  "findRegisteredIndex
     (registeredComponents
        (run (initial_world button_page)
           [Register MaterialButton, Register Button,
            UpgradeElement 0 (Some ''MaterialButton'')]))
     (Some ''Button'') = Some 1 \<and>
   outcomes (initial_world button_page)
     [Register MaterialButton, Register Button, UpgradeElement 0 (Some ''MaterialButton''),
      UpgradeElement 0 (Some ''Button''), UpgradeElement 0 (Some ''Button'')]
     = [None, None, None, None, None] \<and>
   instances_of
     (run (initial_world button_page)
        [Register MaterialButton, Register Button, UpgradeElement 0 (Some ''MaterialButton''),
         UpgradeElement 0 (Some ''Button''), UpgradeElement 0 (Some ''Button'')])
     0 ''Button'' = [] \<and>
   marker_tokens
     (run (initial_world button_page)
        [Register MaterialButton, Register Button, UpgradeElement 0 (Some ''MaterialButton''),
         UpgradeElement 0 (Some ''Button''), UpgradeElement 0 (Some ''Button'')])
     0 = ['''', ''MaterialButton'']"
  by (simp add: scenario_defs)

subsection \<open>C2: upgrade, downgrade, upgrade\<close>

text \<open>
  Claim C2 says that \<^verbatim>\<open>upgradeElement(E, B)\<close>, \<^verbatim>\<open>downgrade(E)\<close>,
  \<^verbatim>\<open>upgradeElement(E, B)\<close>, for a class with downgrade method, end with exactly one
  component of \<open>E\<close> and \<open>B\<close> and with \<open>B\<close> once in the marker.

  The source does not do this for an element that has another component.
  \<^verbatim>\<open>deconstructComponentInternal\<close> looks for
  \<^verbatim>\<open>component[componentConfigProperty_].classAsString\<close> among the entries of the marker;
  a registration has no such key (its key is \<^verbatim>\<open>className\<close>), \<^verbatim>\<open>indexOf(undefined)\<close> is
  \<open>-1\<close>, and \<^verbatim>\<open>splice(-1, 1)\<close> removes the last entry, whichever class it names.

  Below, the file has been loaded over a page whose element \<open>0\<close> has both CSS classes, so
  the element carries a \<^verbatim>\<open>MaterialButton\<close> and a \<^verbatim>\<open>MaterialRipple\<close>, in this order.
  In the sequence of C2 for \<^verbatim>\<open>MaterialButton\<close> no call raises. The downgrade takes the
  button out of the list and the entry \<^verbatim>\<open>MaterialRipple\<close> out of the marker; the entry
  \<^verbatim>\<open>MaterialButton\<close> stays, so the last call returns at once, and the element ends
  without a \<^verbatim>\<open>MaterialButton\<close>. With \<^verbatim>\<open>MaterialRipple\<close> in place of
  \<^verbatim>\<open>MaterialButton\<close> the sequence ends with two components instead (lemma
  \<open>upgrade_downgrade_upgrade_two_instances\<close>).

  For an element without marker and without component the sequence does end as the
  claim says (lemma \<open>upgrade_downgrade_upgrade_single\<close>): the last entry of the marker
  is then the one to remove.
\<close>

theorem upgrade_downgrade_upgrade_lost_instance:
  "has_downgrade (newConfig MaterialButton) \<and>
   outcomes (initial_world button_page)
     (page_load @
      [UpgradeElement 0 (Some ''MaterialButton''), DowngradeElements (Node 0),
       UpgradeElement 0 (Some ''MaterialButton'')])
     = [None, None, None, None, None, None] \<and>
   instances_of (run (initial_world button_page) page_load) 0 ''MaterialButton''
     = [\<lparr>element_field = 0, mdlComponentConfigInternal = newConfig MaterialButton\<rparr>] \<and>
   marker_tokens (run (initial_world button_page) page_load) 0
     = ['''', ''MaterialButton'', ''MaterialRipple''] \<and>
   createdComponents
     (run (initial_world button_page)
        (page_load @
         [UpgradeElement 0 (Some ''MaterialButton''), DowngradeElements (Node 0)]))
     = [\<lparr>element_field = 0, mdlComponentConfigInternal = newConfig MaterialRipple\<rparr>] \<and>
   marker_tokens
     (run (initial_world button_page)
        (page_load @
         [UpgradeElement 0 (Some ''MaterialButton''), DowngradeElements (Node 0)])) 0
     = ['''', ''MaterialButton''] \<and>
   instances_of
     (run (initial_world button_page)
        (page_load @
         [UpgradeElement 0 (Some ''MaterialButton''), DowngradeElements (Node 0),
          UpgradeElement 0 (Some ''MaterialButton'')]))
     0 ''MaterialButton'' = [] \<and>
   marker_tokens
     (run (initial_world button_page)
        (page_load @
         [UpgradeElement 0 (Some ''MaterialButton''), DowngradeElements (Node 0),
          UpgradeElement 0 (Some ''MaterialButton'')])) 0
     = ['''', ''MaterialButton'']"
  by (simp add: scenario_defs)

subsection \<open>C3: a second registration under the same class name\<close>

text \<open>
  Claim C3 says that a registration whose id is the id of an existing registration, and
  that passes validation, replaces the existing one in place. In the source the
  \<^verbatim>\<open>forEach\<close> of \<^verbatim>\<open>registerInternal\<close> throws for every item that has the class name
  of the new registration, so no such registration passes: the replacement that
  \<^verbatim>\<open>findRegisteredClass_(config.classAsString, newConfig)\<close> could make never happens.

  The claim as amended: a registration whose id is the id of an existing registration
  is rejected with a configuration error (the selector's or the id's) and the world is
  as before the call; a call of \<^verbatim>\<open>register\<close> that returns was made with a new id and
  has appended the registration at the end of the list.
\<close>

theorem register_same_id_rejected:
  "(cfg_classAsString cfg \<in> set (map className (registeredComponents st)) \<longrightarrow>
      registerInternal st cfg = Thrown CssClassAlreadyRegistered st \<or>
      registerInternal st cfg = Thrown ClassNameAlreadyRegistered st) \<and>
   (\<forall>st'. registerInternal st cfg = Done st' \<longrightarrow>
      cfg_classAsString cfg \<notin> set (map className (registeredComponents st)) \<and>
      st' = st\<lparr>registeredComponents := registeredComponents st @ [newConfig cfg]\<rparr>)"
proof (intro conjI impI allI)
  assume "cfg_classAsString cfg \<in> set (map className (registeredComponents st))"
  then show "registerInternal st cfg = Thrown CssClassAlreadyRegistered st \<or>
      registerInternal st cfg = Thrown ClassNameAlreadyRegistered st"
    by (rule registerInternal_same_className)
next
  fix st' assume d: "registerInternal st cfg = Done st'"
  then show "st' = st\<lparr>registeredComponents := registeredComponents st @ [newConfig cfg]\<rparr>"
    by (rule registerInternal_Done)
  from registerInternal_Done(2) [OF d]
  show "cfg_classAsString cfg \<notin> set (map className (registeredComponents st))"
    by (auto simp: check_registered_None newConfig_def)
qed

text \<open>The counterexample to C3 as stated: \<^verbatim>\<open>MaterialButton\<close> is registered, and is
  registered again under a CSS class that no registration uses, with a constructor
  whose prototype does not define the reserved property. The registration at index
  \<open>0\<close> has the same id; the call throws and the registration at index \<open>0\<close> keeps
  its CSS class.\<close>

theorem register_same_id_counterexample:
  "className (registeredComponents (run (initial_world button_page) [Register MaterialButton]) ! 0)
     = cfg_classAsString (MaterialButton\<lparr>cfg_cssClass := ''mdl-js-fab''\<rparr>) \<and>
   cfg_cssClass (MaterialButton\<lparr>cfg_cssClass := ''mdl-js-fab''\<rparr>)
     \<notin> set (map cssClass
           (registeredComponents (run (initial_world button_page) [Register MaterialButton]))) \<and>
   \<not> hasOwnProperty
        (prototype (cfg_constructor (MaterialButton\<lparr>cfg_cssClass := ''mdl-js-fab''\<rparr>)))
        componentConfigProperty \<and>
   registerInternal (run (initial_world button_page) [Register MaterialButton])
       (MaterialButton\<lparr>cfg_cssClass := ''mdl-js-fab''\<rparr>)
     = Thrown ClassNameAlreadyRegistered
         (run (initial_world button_page) [Register MaterialButton]) \<and>
   cssClass (registeredComponents (run (initial_world button_page) [Register MaterialButton]) ! 0)
     = ''mdl-js-button''"
  by (simp add: scenario_defs)

theorem register_same_id_rejected_witness:
  "cfg_classAsString (MaterialButton\<lparr>cfg_cssClass := ''mdl-js-fab''\<rparr>)
     \<in> set (map className
           (registeredComponents (run (initial_world button_page) [Register MaterialButton]))) \<and>
   (registerInternal (run (initial_world button_page) [Register MaterialButton])
        (MaterialButton\<lparr>cfg_cssClass := ''mdl-js-fab''\<rparr>)
      = Thrown CssClassAlreadyRegistered
          (run (initial_world button_page) [Register MaterialButton]) \<or>
    registerInternal (run (initial_world button_page) [Register MaterialButton])
        (MaterialButton\<lparr>cfg_cssClass := ''mdl-js-fab''\<rparr>)
      = Thrown ClassNameAlreadyRegistered
          (run (initial_world button_page) [Register MaterialButton])) \<and>
   registerInternal (run (initial_world button_page) [Register MaterialButton]) MaterialRipple
     = Done (run (initial_world button_page) [Register MaterialButton, Register MaterialRipple]) \<and>
   registeredComponents
       (run (initial_world button_page) [Register MaterialButton, Register MaterialRipple])
     = registeredComponents (run (initial_world button_page) [Register MaterialButton])
         @ [newConfig MaterialRipple]"
proof -
  let ?st = "run (initial_world button_page) [Register MaterialButton]"
  let ?cfg = "MaterialButton\<lparr>cfg_cssClass := ''mdl-js-fab''\<rparr>"
  let ?st' = "run (initial_world button_page) [Register MaterialButton, Register MaterialRipple]"
  have h1: "cfg_classAsString ?cfg \<in> set (map className (registeredComponents ?st))"
    by (simp add: scenario_defs)
  have h2: "registerInternal ?st MaterialRipple = Done ?st'"
    by (simp add: scenario_defs)
  from register_same_id_rejected [of ?cfg ?st] h1
  have c1: "registerInternal ?st ?cfg = Thrown CssClassAlreadyRegistered ?st \<or>
        registerInternal ?st ?cfg = Thrown ClassNameAlreadyRegistered ?st"
    by blast
  from register_same_id_rejected [of MaterialRipple ?st] h2
  have "?st' = ?st\<lparr>registeredComponents := registeredComponents ?st @ [newConfig MaterialRipple]\<rparr>"
    by blast
  then have c2: "registeredComponents ?st' = registeredComponents ?st @ [newConfig MaterialRipple]"
    by (metis world.select_convs(1) world.surjective world.update_convs(1))
  from h1 c1 h2 c2 show ?thesis by blast
qed

subsection \<open>C4: a registration under a CSS class that is taken\<close>

text \<open>
  Claim C4: when the CSS class of the new registration is the CSS class of a registered
  component with another class name, \<^verbatim>\<open>register\<close> throws a configuration error and
  the registration list is as before the call. The outcome \<open>Thrown e st\<close> carries the
  world of before the call, so nothing at all has changed. The error is the selector's
  unless an item that comes no later in the list has the class name, whose error is
  then the one thrown.
\<close>

theorem register_duplicate_selector:
  assumes "r \<in> set (registeredComponents st)"
    and "cssClass r = cfg_cssClass cfg"
    and "className r \<noteq> cfg_classAsString cfg"
  shows "\<exists>e. registerInternal st cfg = Thrown e st \<and>
           (e = CssClassAlreadyRegistered \<or> e = ClassNameAlreadyRegistered)"
proof -
  from assms(1,2) have "check_registered (registeredComponents st) (newConfig cfg) \<noteq> None"
    by (auto simp: check_registered_None newConfig_def)
  then obtain e where e: "check_registered (registeredComponents st) (newConfig cfg) = Some e"
    by auto
  then have "registerInternal st cfg = Thrown e st"
    by (simp add: registerInternal_def)
  with check_registered_Some [OF e] show ?thesis by auto
qed

theorem register_duplicate_selector_witness:
  "newConfig MaterialButton
     \<in> set (registeredComponents (run (initial_world button_page) [Register MaterialButton])) \<and>
   cssClass (newConfig MaterialButton)
     = cfg_cssClass (MaterialRipple\<lparr>cfg_cssClass := ''mdl-js-button''\<rparr>) \<and>
   className (newConfig MaterialButton)
     \<noteq> cfg_classAsString (MaterialRipple\<lparr>cfg_cssClass := ''mdl-js-button''\<rparr>) \<and>
   (\<exists>e. registerInternal (run (initial_world button_page) [Register MaterialButton])
            (MaterialRipple\<lparr>cfg_cssClass := ''mdl-js-button''\<rparr>)
          = Thrown e (run (initial_world button_page) [Register MaterialButton]) \<and>
        (e = CssClassAlreadyRegistered \<or> e = ClassNameAlreadyRegistered))"
proof -
  let ?st = "run (initial_world button_page) [Register MaterialButton]"
  let ?cfg = "MaterialRipple\<lparr>cfg_cssClass := ''mdl-js-button''\<rparr>"
  have h1: "newConfig MaterialButton \<in> set (registeredComponents ?st)"
    by (simp add: scenario_defs)
  have h2: "cssClass (newConfig MaterialButton) = cfg_cssClass ?cfg"
    by (simp add: scenario_defs)
  have h3: "className (newConfig MaterialButton) \<noteq> cfg_classAsString ?cfg"
    by (simp add: scenario_defs)
  from register_duplicate_selector [OF h1 h2 h3] h1 h2 h3 show ?thesis by blast
qed

subsection \<open>C5: upgrading with a class that is not registered\<close>

text \<open>
  Claim C5 says that \<^verbatim>\<open>upgradeElement(E, B)\<close> raises and creates no component when
  \<open>B\<close> has no registration and the marker of \<open>E\<close> does not list \<open>B\<close>.

  When the guard of the source lets the call pass, this is what happens (lemma
  \<open>upgradeElementInternal_unregistered\<close>: the call throws, and only the marker has
  changed). The guard, however, looks for \<open>B\<close> anywhere in the marker string. Below,
  element \<open>0\<close> has been upgraded with \<^verbatim>\<open>MaterialButton\<close>; \<open>Button\<close> has no
  registration and is not among the entries of the marker, and
  \<^verbatim>\<open>upgradeElement(0, 'Button')\<close> returns without raising.
\<close>

theorem upgradeElement_unregistered_substring_id:
  "findRegisteredIndex
     (registeredComponents
        (run (initial_world button_page)
           [Register MaterialButton, UpgradeElement 0 (Some ''MaterialButton'')]))
     (Some ''Button'') = None \<and>
   marker_tokens
     (run (initial_world button_page)
        [Register MaterialButton, UpgradeElement 0 (Some ''MaterialButton'')]) 0
     = ['''', ''MaterialButton''] \<and>
   upgradeElementInternal
     (run (initial_world button_page)
        [Register MaterialButton, UpgradeElement 0 (Some ''MaterialButton'')])
     0 (Some ''Button'')
     = Done (run (initial_world button_page)
               [Register MaterialButton, UpgradeElement 0 (Some ''MaterialButton'')])"
proof -
  let ?st = "run (initial_world button_page)
        [Register MaterialButton, UpgradeElement 0 (Some ''MaterialButton'')]"
  have "\<not> not_yet_upgraded ?st 0 (Some ''Button'')"
    by (simp add: scenario_defs)
  then have "upgradeElementInternal ?st 0 (Some ''Button'') = Done ?st"
    by (rule upgradeElementInternal_noop)
  moreover have "findRegisteredIndex (registeredComponents ?st) (Some ''Button'') = None"
    by (simp add: scenario_defs)
  moreover have "marker_tokens ?st 0 = ['''', ''MaterialButton'']"
    by (simp add: scenario_defs)
  ultimately show ?thesis by simp
qed

subsection \<open>C6: the order of the upgrade callbacks\<close>

text \<open>
  Claim C6: let \<open>B\<close> be registered, let \<open>c1\<close> and later \<open>c2\<close> be added with
  \<^verbatim>\<open>registerUpgradedCallback\<close> for \<open>B\<close>, and let any calls of the public interface
  come in between and after. Then every call of \<^verbatim>\<open>upgradeElement\<close> that upgrades an
  element with \<open>B\<close> (the guard lets it pass) returns normally and calls, between the
  constructor and the dispatch of the event, the callbacks that \<open>B\<close> had before, then
  \<open>c1\<close>, then \<open>c2\<close> (others may come in between and after), each with the element
  as argument. The log of the world records these calls in the order they are made.
\<close>

theorem upgrade_callbacks_in_order:
  assumes "findRegisteredIndex (registeredComponents st) (Some b) \<noteq> None"
    and "st' = run st ([RegisterUpgradedCallback (Some b) c1] @ between
                       @ [RegisterUpgradedCallback (Some b) c2] @ calls)"
    and "not_yet_upgraded st' e (Some b)"
  shows "\<exists>st'' ctor mid later.
           upgradeElementInternal st' e (Some b) = Done st'' \<and>
           trace st'' = trace st'
             @ [Constructed ctor e]
             @ map (\<lambda>callback. CallbackCalled callback e)
                 (callbacks_of st b @ [c1] @ mid @ [c2] @ later)
             @ [Dispatched ''mdl-componentupgraded'' e]"
proof -
  let ?st1 = "world_of (registerUpgradedCallbackInternal st (Some b) c1)"
  let ?st2 = "run ?st1 between"
  let ?st3 = "world_of (registerUpgradedCallbackInternal ?st2 (Some b) c2)"
  from assms(1)
  have r1: "findRegisteredIndex (registeredComponents ?st1) (Some b) \<noteq> None"
    by (simp add: registerUpgradedCallback_index)
  from registerUpgradedCallback_callbacks_of [OF assms(1), of "Some b" c1]
  have cb1: "callbacks_of ?st1 b = callbacks_of st b @ [c1]" by simp
  from run_callbacks_of [OF r1, of between] cb1
  obtain mid where r2: "findRegisteredIndex (registeredComponents ?st2) (Some b) \<noteq> None"
    and cb2: "callbacks_of ?st2 b = callbacks_of st b @ [c1] @ mid"
    by (auto simp: prefix_def)
  from r2 have r3: "findRegisteredIndex (registeredComponents ?st3) (Some b) \<noteq> None"
    by (simp add: registerUpgradedCallback_index)
  from registerUpgradedCallback_callbacks_of [OF r2, of "Some b" c2] cb2
  have cb3: "callbacks_of ?st3 b = callbacks_of st b @ [c1] @ mid @ [c2]" by simp
  from assms(2) have st': "st' = run ?st3 calls"
    by (simp add: run_append)
  from run_callbacks_of [OF r3, of calls] st' cb3
  obtain later where later: "callbacks_of st' b = callbacks_of st b @ [c1] @ mid @ [c2] @ later"
    and r': "findRegisteredIndex (registeredComponents st') (Some b) \<noteq> None"
    by (auto simp: prefix_def)
  from r' obtain i where "findRegisteredIndex (registeredComponents st') (Some b) = Some i"
    by auto
  from upgradeElementInternal_trace [OF assms(3) this] later show ?thesis
    by auto
qed

theorem upgrade_callbacks_in_order_witness:
  "findRegisteredIndex
     (registeredComponents (run (initial_world button_page) [Register MaterialButton]))
     (Some ''MaterialButton'') \<noteq> None \<and>
   not_yet_upgraded
     (run (initial_world button_page)
        [Register MaterialButton,
         RegisterUpgradedCallback (Some ''MaterialButton'') 1,
         Register MaterialRipple,
         RegisterUpgradedCallback (Some ''MaterialButton'') 2,
         RegisterUpgradedCallback (Some ''MaterialButton'') 3])
     0 (Some ''MaterialButton'') \<and>
   callbacks_of (run (initial_world button_page) [Register MaterialButton]) ''MaterialButton'' = [] \<and>
   (\<exists>st'' ctor mid later.
      upgradeElementInternal
        (run (initial_world button_page)
           [Register MaterialButton,
            RegisterUpgradedCallback (Some ''MaterialButton'') 1,
            Register MaterialRipple,
            RegisterUpgradedCallback (Some ''MaterialButton'') 2,
            RegisterUpgradedCallback (Some ''MaterialButton'') 3])
        0 (Some ''MaterialButton'') = Done st'' \<and>
      trace st'' =
        [Constructed ctor 0]
        @ map (\<lambda>callback. CallbackCalled callback 0) ([1] @ mid @ [2] @ later)
        @ [Dispatched ''mdl-componentupgraded'' 0])"
proof -
  let ?st = "run (initial_world button_page) [Register MaterialButton]"
  let ?st' = "run (initial_world button_page)
        [Register MaterialButton,
         RegisterUpgradedCallback (Some ''MaterialButton'') 1,
         Register MaterialRipple,
         RegisterUpgradedCallback (Some ''MaterialButton'') 2,
         RegisterUpgradedCallback (Some ''MaterialButton'') 3]"
  have h1: "findRegisteredIndex (registeredComponents ?st) (Some ''MaterialButton'') \<noteq> None"
    by (simp add: scenario_defs)
  have h2: "?st' = run ?st ([RegisterUpgradedCallback (Some ''MaterialButton'') 1]
                       @ [Register MaterialRipple]
                       @ [RegisterUpgradedCallback (Some ''MaterialButton'') 2]
                       @ [RegisterUpgradedCallback (Some ''MaterialButton'') 3])"
    by simp
  have h3: "not_yet_upgraded ?st' 0 (Some ''MaterialButton'')"
    by (simp add: scenario_defs)
  have c: "callbacks_of ?st ''MaterialButton'' = []"
    by (simp add: scenario_defs)
  have t: "trace ?st' = []"
    by (simp add: scenario_defs)
  from upgrade_callbacks_in_order [OF h1 h2 h3] c t h1 h3 show ?thesis
    by simp
qed

subsection \<open>C7: downgrading an element whose component has no downgrade method\<close>

text \<open>
  Claim C7 says that \<^verbatim>\<open>downgrade\<close> of an element that was upgraded with a class
  without downgrade method is a silent no-op. \<^verbatim>\<open>downgradeNodesInternal\<close> looks at one
  component only, the first of the list whose element is the node. When that one has a
  downgrade method, the call is not a no-op, whatever else the element was upgraded with.

  The claim as amended: when the component that \<^verbatim>\<open>findCreatedComponentByNodeInternal\<close>
  returns for the element belongs to a class without downgrade method, or when it
  returns none, \<^verbatim>\<open>downgrade\<close> of the element (alone, or as an array of one) changes
  nothing and raises nothing; and whatever its argument, \<^verbatim>\<open>downgrade\<close> removes no
  component of a class without downgrade method from the list.
\<close>

theorem downgrade_without_hook:
  "((case findCreatedComponentByNodeInternal st e of
       None \<Rightarrow> True
     | Some c \<Rightarrow> \<not> has_downgrade (mdlComponentConfigInternal c)) \<longrightarrow>
      downgradeNodesInternal st (Node e) = Done st \<and>
      downgradeNodesInternal st (Nodes [e]) = Done st) \<and>
   filter (\<lambda>c. \<not> has_downgrade (mdlComponentConfigInternal c))
       (createdComponents (world_of (downgradeNodesInternal st ns))) =
   filter (\<lambda>c. \<not> has_downgrade (mdlComponentConfigInternal c)) (createdComponents st)"
proof (intro conjI impI)
  assume a: "case findCreatedComponentByNodeInternal st e of
       None \<Rightarrow> True
     | Some c \<Rightarrow> \<not> has_downgrade (mdlComponentConfigInternal c)"
  then have "downgradeNode st e = Done st"
    unfolding downgradeNode_def by (rule deconstruct_no_hook)
  then show "downgradeNodesInternal st (Node e) = Done st"
    and "downgradeNodesInternal st (Nodes [e]) = Done st"
    by simp_all
next
  show "filter (\<lambda>c. \<not> has_downgrade (mdlComponentConfigInternal c))
       (createdComponents (world_of (downgradeNodesInternal st ns))) =
   filter (\<lambda>c. \<not> has_downgrade (mdlComponentConfigInternal c)) (createdComponents st)"
    by (cases ns) (simp_all add: downgradeNodeList_keeps_no_hook downgradeNode_keeps_no_hook)
qed

text \<open>The counterexample to C7 as stated: element \<open>0\<close> is upgraded with
  \<^verbatim>\<open>MaterialButton\<close> and then with \<open>Tooltip\<close>, which has no downgrade method. No call
  raises. \<^verbatim>\<open>downgrade\<close> of the element runs the downgrade of the button, the first
  component of the element, and the marker loses its last entry, the one of
  \<open>Tooltip\<close>, whose component stays in the list.\<close>

theorem downgrade_first_instance_counterexample:
  "outcomes (initial_world button_page)
     [Register MaterialButton, Register Tooltip,
      UpgradeElement 0 (Some ''MaterialButton''), UpgradeElement 0 (Some ''Tooltip''),
      DowngradeElements (Node 0)]
     = [None, None, None, None, None] \<and>
   \<not> has_downgrade (newConfig Tooltip) \<and>
   instances_of
     (run (initial_world button_page)
        [Register MaterialButton, Register Tooltip,
         UpgradeElement 0 (Some ''MaterialButton''), UpgradeElement 0 (Some ''Tooltip'')])
     0 ''Tooltip''
     = [\<lparr>element_field = 0, mdlComponentConfigInternal = newConfig Tooltip\<rparr>] \<and>
   marker_tokens
     (run (initial_world button_page)
        [Register MaterialButton, Register Tooltip,
         UpgradeElement 0 (Some ''MaterialButton''), UpgradeElement 0 (Some ''Tooltip'')])
     0
     = ['''', ''MaterialButton'', ''Tooltip''] \<and>
   marker_tokens
     (run (initial_world button_page)
        [Register MaterialButton, Register Tooltip,
         UpgradeElement 0 (Some ''MaterialButton''), UpgradeElement 0 (Some ''Tooltip''),
         DowngradeElements (Node 0)])
     0
     = ['''', ''MaterialButton''] \<and>
   createdComponents
     (run (initial_world button_page)
        [Register MaterialButton, Register Tooltip,
         UpgradeElement 0 (Some ''MaterialButton''), UpgradeElement 0 (Some ''Tooltip''),
         DowngradeElements (Node 0)])
     = [\<lparr>element_field = 0, mdlComponentConfigInternal = newConfig Tooltip\<rparr>]"
  by (simp add: scenario_defs)

theorem downgrade_without_hook_witness:
  "findCreatedComponentByNodeInternal
     (run (initial_world button_page) [Register Tooltip, UpgradeElement 0 (Some ''Tooltip'')]) 0
     = Some \<lparr>element_field = 0, mdlComponentConfigInternal = newConfig Tooltip\<rparr> \<and>
   \<not> has_downgrade (newConfig Tooltip) \<and>
   downgradeNodesInternal
     (run (initial_world button_page) [Register Tooltip, UpgradeElement 0 (Some ''Tooltip'')])
     (Node 0)
     = Done (run (initial_world button_page) [Register Tooltip, UpgradeElement 0 (Some ''Tooltip'')]) \<and>
   findCreatedComponentByNodeInternal (initial_world button_page) 0 = None \<and>
   downgradeNodesInternal (initial_world button_page) (Node 0) = Done (initial_world button_page)"
proof -
  let ?st = "run (initial_world button_page) [Register Tooltip, UpgradeElement 0 (Some ''Tooltip'')]"
  have f: "findCreatedComponentByNodeInternal ?st 0
     = Some \<lparr>element_field = 0, mdlComponentConfigInternal = newConfig Tooltip\<rparr>"
    by (simp add: scenario_defs)
  have n: "\<not> has_downgrade (newConfig Tooltip)"
    by (simp add: scenario_defs)
  have f0: "findCreatedComponentByNodeInternal (initial_world button_page) 0 = None"
    by (simp add: scenario_defs)
  from downgrade_without_hook [of ?st 0 "Node 0"] f n
  have "downgradeNodesInternal ?st (Node 0) = Done ?st" by simp
  moreover from downgrade_without_hook [of "initial_world button_page" 0 "Node 0"] f0
  have "downgradeNodesInternal (initial_world button_page) (Node 0) = Done (initial_world button_page)"
    by simp
  ultimately show ?thesis using f n f0 by blast
qed

subsection \<open>C8: \<open>upgradeAllRegistered\<close> and \<open>upgradeDom\<close> without arguments\<close>

text \<open>
  Claim C8: in every world that calls of the public interface can reach from the initial
  one, over any document, \<^verbatim>\<open>upgradeAllRegistered()\<close> and \<^verbatim>\<open>upgradeDom()\<close> have the same
  outcome: the same world (components, markers, properties and log, in the same order)
  and the same exception, if any.

  \<^verbatim>\<open>upgradeAllRegisteredInternal\<close> passes the class name alone and lets
  \<^verbatim>\<open>upgradeDomInternal\<close> look the CSS class up, which gives the CSS class of the first
  registration with that name; the loop of \<^verbatim>\<open>upgradeDomInternal\<close> passes the CSS
  class of each registration itself. The two agree because the class names of the
  registry are distinct (lemmas \<open>run_distinct\<close> and \<open>upgradeAllRegistered_distinct\<close>).
\<close>

theorem upgradeAllRegistered_is_upgradeDom:
  "upgradeAllRegisteredInternal (run (initial_world q) calls) =
     upgradeDomInternal (run (initial_world q) calls) None None"
proof -
  have "distinct (map className (registeredComponents (initial_world q)))"
    by (simp add: initial_world_def)
  then have "distinct (map className (registeredComponents (run (initial_world q) calls)))"
    by (rule run_distinct)
  then show ?thesis by (rule upgradeAllRegistered_distinct)
qed

subsection \<open>C9: the marker after a failed upgrade\<close>




subsection \<open>C10: the guard looks for the class name anywhere in the marker\<close>

text \<open>
  Claim C10: \<^verbatim>\<open>upgradeElement(E, B)\<close> returns at once, the world unchanged, whenever
  \<open>B\<close> is a contiguous part of the marker string of \<open>E\<close>, whether or not it is one of
  its comma-separated entries. An instance: after the file has been loaded over the page
  with the one button (no call raises), the entries of the marker of element \<open>0\<close> are
  the empty string, \<^verbatim>\<open>MaterialButton\<close> and \<^verbatim>\<open>MaterialRipple\<close>; \<open>Button\<close> is none of
  them, it is a part of the entry \<^verbatim>\<open>MaterialButton\<close>, and
  \<^verbatim>\<open>upgradeElement(0, 'Button')\<close> returns at once, with no component of the element
  and \<open>Button\<close> in the list.
\<close>

theorem upgradeElement_guard_is_substring:
  "(\<forall>st e b m. data_upgraded st e = Some m \<and> sublist b m \<longrightarrow>
       upgradeElementInternal st e (Some b) = Done st) \<and>
   outcomes (initial_world button_page) page_load = [None, None, None] \<and>
   marker_tokens (run (initial_world button_page) page_load) 0
     = ['''', ''MaterialButton'', ''MaterialRipple''] \<and>
   ''Button'' \<notin> set (marker_tokens (run (initial_world button_page) page_load) 0) \<and>
   sublist ''Button'' ''MaterialButton'' \<and>
   upgradeElementInternal (run (initial_world button_page) page_load) 0 (Some ''Button'')
     = Done (run (initial_world button_page) page_load) \<and>
   instances_of (run (initial_world button_page) page_load) 0 ''Button'' = []"
proof -
  let ?st = "run (initial_world button_page) page_load"
  have g: "\<forall>st e b m. data_upgraded st e = Some m \<and> sublist b m \<longrightarrow>
       upgradeElementInternal st e (Some b) = Done st"
    using upgradeElementInternal_substring [where j = "Some b" for b]
    by (simp add: js_string_def)
  have m: "data_upgraded ?st 0 = Some '',MaterialButton,MaterialRipple''"
    by (simp add: scenario_defs)
  have s: "sublist ''Button'' '',MaterialButton,MaterialRipple''"
    by (simp add: sublist_Cons_right)
  from g m s have "upgradeElementInternal ?st 0 (Some ''Button'') = Done ?st"
    by blast
  moreover have "outcomes (initial_world button_page) page_load = [None, None, None]"
    by (simp add: scenario_defs)
  moreover from m have "marker_tokens ?st 0 = ['''', ''MaterialButton'', ''MaterialRipple'']"
    by (simp add: marker_tokens_def)
  moreover have "sublist ''Button'' ''MaterialButton''"
    by (simp add: sublist_Cons_right)
  moreover have "instances_of ?st 0 ''Button'' = []"
    by (simp add: scenario_defs)
  ultimately show ?thesis using g by simp
qed

theorem upgradeElement_guard_is_substring_witness:
  "data_upgraded (run (initial_world button_page) page_load) 0
     = Some '',MaterialButton,MaterialRipple'' \<and>
   sublist ''Ripple'' '',MaterialButton,MaterialRipple'' \<and>
   upgradeElementInternal (run (initial_world button_page) page_load) 0 (Some ''Ripple'')
     = Done (run (initial_world button_page) page_load)"
proof -
  let ?st = "run (initial_world button_page) page_load"
  have m: "data_upgraded ?st 0 = Some '',MaterialButton,MaterialRipple''"
    by (simp add: scenario_defs)
  have s: "sublist ''Ripple'' '',MaterialButton,MaterialRipple''"
    by (simp add: sublist_Cons_right)
  from upgradeElement_guard_is_substring m s
  have "upgradeElementInternal ?st 0 (Some ''Ripple'') = Done ?st"
    by blast
  with m s show ?thesis by simp
qed

end
